theory Spec2Isabelle
  imports Main "HOL-Library.Sublist" "HOL-Library.AList" "HOL-Library.Char_ord"
    "HOL-Library.List_Lexorder" "HOL-Library.Code_Target_Nat"
begin

section \<open>JavaScript values used by the star list\<close>

text \<open>
  Strings are lists of code units; the model covers the code units below 256 (Latin-1),
  which is what \<^typ>\<open>char\<close> holds. \<open>String.prototype.toLowerCase\<close> maps A-Z and the
  Latin-1 capitals (0xC0-0xDE without the multiplication sign 0xD7) to the letter 32
  places up; \<open>String.prototype.trim\<close> removes TAB, LF, VT, FF, CR, space and the
  no-break space from both ends.
\<close>

definition isWhiteSpace :: "char \<Rightarrow> bool" where
  "isWhiteSpace c =
     (let n = (of_char c :: nat) in (9 \<le> n \<and> n \<le> 13) \<or> n = 32 \<or> n = 160)"

definition toLowerCase_char :: "char \<Rightarrow> char" where
  "toLowerCase_char c =
     (let n = (of_char c :: nat) in
      if (65 \<le> n \<and> n \<le> 90) \<or> (192 \<le> n \<and> n \<le> 222 \<and> n \<noteq> 215)
      then char_of (n + 32) else c)"

definition toLowerCase :: "string \<Rightarrow> string" where
  "toLowerCase s = map toLowerCase_char s"

definition trim :: "string \<Rightarrow> string" where
  "trim s = rev (dropWhile isWhiteSpace (rev (dropWhile isWhiteSpace s)))"

text \<open>\<open>s.includes(t)\<close>: \<open>t\<close> occurs in \<open>s\<close> as a contiguous run.\<close>

definition includes_str :: "string \<Rightarrow> string \<Rightarrow> bool" where
  "includes_str s t = sublist t s"

text \<open>\<open>s.split(c)\<close> for a one-character separator; the empty string gives one empty piece.\<close>

fun split :: "char \<Rightarrow> string \<Rightarrow> string list" where
  "split c [] = [[]]"
| "split c (x # xs) =
     (if x = c then [] # split c xs
      else (case split c xs of [] \<Rightarrow> [[x]] | y # ys \<Rightarrow> (x # y) # ys))"

text \<open>
  Numbers: NaN, the two infinities and \<open>Num i\<close>, the JavaScript number nearest to the
  integer \<open>i\<close>; up to \<open>2^53\<close> in magnitude that is \<open>i\<close> itself. The program meets no
  fractions: its numbers are repository identifiers and results of \<open>parseInt\<close>.
\<close>

datatype number = NaN | Num int | Infinity | MinusInfinity

fun nat_digits :: "nat \<Rightarrow> string" where
  "nat_digits n =
     (if n < 10 then [char_of (48 + n)]
      else nat_digits (n div 10) @ [char_of (48 + n mod 10)])"

declare nat_digits.simps [simp del]

text \<open>
  The integers up to \<open>2^53\<close> are numbers as they are. A larger integer is rounded to 53
  significant bits, a tie going to the even neighbour.
\<close>

definition exact_integer :: "nat \<Rightarrow> bool" where
  "exact_integer n = (int n \<le> 9007199254740992)"

fun bit_length :: "nat \<Rightarrow> nat" where
  "bit_length n = (if n = 0 then 0 else Suc (bit_length (n div 2)))"

declare bit_length.simps [simp del]

definition round_double :: "nat \<Rightarrow> nat" where
  "round_double n =
     (if exact_integer n then n
      else (let e = bit_length n - 53; q = n div 2 ^ e; r = n mod 2 ^ e; h = 2 ^ (e - 1)
            in (if h < r \<or> (r = h \<and> odd q) then q + 1 else q) * 2 ^ e))"

text \<open>
  \<open>Number.prototype.toString\<close> on a rounded integer \<open>x\<close> beyond \<open>2^53\<close>: the digits
  \<open>s\<close>, as few as possible (\<open>k\<close> of them, at most 17), and the length \<open>n\<close> such that
  \<open>s * 10^(n - k)\<close> rounds to \<open>x\<close>; among several \<open>s\<close> of the same length the one nearest to
  \<open>x\<close>, and the even one of two equally near. The text is \<open>s\<close> followed by zeros when
  \<open>n\<close> is at most 21, and \<open>s\<close> with a point after its first digit and the exponent
  \<open>n - 1\<close> otherwise. From \<open>2^1024\<close> on the rounded value is infinite.
\<close>

definition digit_candidates :: "nat \<Rightarrow> nat \<Rightarrow> (nat \<times> nat) list" where
  "digit_candidates x k =
     (let N = length (nat_digits x)
      in concat (map (\<lambda>n. if n < k then []
                    else filter (\<lambda>sn. 10 ^ (k - 1) \<le> fst sn \<and> fst sn < 10 ^ k
                                  \<and> round_double (fst sn * 10 ^ (n - k)) = x)
                           [(x div 10 ^ (n - k), n), (x div 10 ^ (n - k) + 1, n)])
                 [N, N + 1]))"

definition distance :: "nat \<Rightarrow> nat \<Rightarrow> nat \<times> nat \<Rightarrow> nat" where
  "distance x k sn = (let y = fst sn * 10 ^ (snd sn - k) in if y < x then x - y else y - x)"

definition closer :: "nat \<Rightarrow> nat \<Rightarrow> nat \<times> nat \<Rightarrow> nat \<times> nat \<Rightarrow> nat \<times> nat" where
  "closer x k a b =
     (if distance x k b < distance x k a \<or> (distance x k b = distance x k a \<and> even (fst b))
      then b else a)"

function search_digits :: "nat \<Rightarrow> nat \<Rightarrow> nat \<times> nat" where
  "search_digits x k =
     (if 17 < k then (x, length (nat_digits x))
      else (case digit_candidates x k of
              [] \<Rightarrow> search_digits x (k + 1)
            | c # cs \<Rightarrow> foldl (closer x k) c cs))"
  by pat_completeness auto

termination
  by (relation "measure (\<lambda>(x, k). 18 - k)") auto

declare search_digits.simps [simp del]

definition exponent_text :: "string \<Rightarrow> nat \<Rightarrow> string" where
  "exponent_text ds n =
     (if n \<le> 21 then ds @ replicate (n - length ds) CHR ''0''
      else if length ds = 1 then ds @ ''e+'' @ nat_digits (n - 1)
      else hd ds # CHR ''.'' # tl ds @ ''e+'' @ nat_digits (n - 1))"

definition double_text :: "nat \<Rightarrow> string" where
  "double_text x =
     (if 2 ^ 1024 \<le> int x then ''Infinity''
      else exponent_text (nat_digits (fst (search_digits x 1))) (snd (search_digits x 1)))"

definition unsigned_text :: "nat \<Rightarrow> string" where
  "unsigned_text m = (if exact_integer m then nat_digits m else double_text (round_double m))"

text \<open>\<open>String(x)\<close>, as in \<open>prefix + repoId\<close>.\<close>

definition number_to_string :: "number \<Rightarrow> string" where
  "number_to_string x =
     (case x of
        NaN \<Rightarrow> ''NaN''
      | Infinity \<Rightarrow> ''Infinity''
      | MinusInfinity \<Rightarrow> ''-Infinity''
      | Num i \<Rightarrow> (if i < 0 then CHR ''-'' # unsigned_text (nat (- i)) else unsigned_text (nat i)))"

text \<open>The number for a mathematical integer.\<close>

definition to_number :: "int \<Rightarrow> number" where
  "to_number i =
     (if exact_integer (nat \<bar>i\<bar>) then Num i
      else (let m = round_double (nat \<bar>i\<bar>)
            in if 2 ^ 1024 \<le> int m then (if i < 0 then MinusInfinity else Infinity)
               else Num (if i < 0 then - int m else int m)))"

text \<open>The value of a digit in radix \<open>R\<close>, for \<open>parseInt\<close>.\<close>

definition digit_val :: "nat \<Rightarrow> char \<Rightarrow> nat option" where
  "digit_val R c =
     (let n = (of_char c :: nat);
          d = (if 48 \<le> n \<and> n \<le> 57 then Some (n - 48)
               else if 97 \<le> n \<and> n \<le> 122 then Some (n - 87)
               else if 65 \<le> n \<and> n \<le> 90 then Some (n - 55)
               else None)
      in case d of None \<Rightarrow> None | Some v \<Rightarrow> (if v < R then Some v else None))"

text \<open>
  \<open>parseInt(s)\<close> with no radix argument: leading white space is skipped, a sign is read,
  a \<open>0x\<close> prefix selects radix 16, and the longest run of digits is the value, rounded
  to a number; no digit gives NaN. (For a run of more than 20 decimal digits the language
  lets an implementation read the later digits as zeros; the model rounds the exact
  value.)
\<close>

definition parseInt :: "string \<Rightarrow> number" where
  "parseInt s =
     (let s1 = dropWhile isWhiteSpace s;
          neg = (take 1 s1 = ''-'');
          s2 = (if take 1 s1 = ''-'' \<or> take 1 s1 = ''+'' then drop 1 s1 else s1);
          hex = (take 2 s2 = ''0x'' \<or> take 2 s2 = ''0X'');
          R = (if hex then 16 else 10);
          s3 = (if hex then drop 2 s2 else s2);
          z = takeWhile (\<lambda>c. digit_val R c \<noteq> None) s3;
          v = foldl (\<lambda>a c. a * R + the (digit_val R c)) 0 z
      in if z = [] then NaN else to_number (if neg then - int v else int v))"

text \<open>
  A JSON value, as \<open>JSON.parse\<close> returns it. An object lists its own properties in
  insertion order, each key once.
\<close>

datatype json =
    JNull
  | JBool bool
  | JNum int
  | JStr string
  | JArr "json list"
  | JObj "(string \<times> json) list"

datatype error = TypeError | SyntaxError | QuotaExceededError | Error string

text \<open>\<open>if (v)\<close>, \<open>!v\<close>, \<open>v || d\<close>: which values count as true.\<close>

fun truthy :: "json \<Rightarrow> bool" where
  "truthy JNull = False"
| "truthy (JBool b) = b"
| "truthy (JNum i) = (i \<noteq> 0)"
| "truthy (JStr s) = (s \<noteq> [])"
| "truthy (JArr _) = True"
| "truthy (JObj _) = True"

text \<open>
  \<open>v.m\<close> for a member name \<open>m\<close> that no array, string, number or boolean has of its own
  (the model reads \<open>metadata\<close>, \<open>repositories\<close>, \<open>tags\<close> and \<open>notes\<close>): reading from
  \<open>null\<close> throws, an object gives its member, and everything else gives \<open>undefined\<close>,
  here \<open>None\<close>.
\<close>

fun member :: "json \<Rightarrow> string \<Rightarrow> error + json option" where
  "member JNull m = Inl TypeError"
| "member (JObj kvs) m = Inr (map_of kvs m)"
| "member _ m = Inr None"

definition truthy_opt :: "json option \<Rightarrow> bool" where
  "truthy_opt v = (case v of None \<Rightarrow> False | Some x \<Rightarrow> truthy x)"

text \<open>
  \<open>Object.entries(v)\<close> of a value that is not \<open>null\<close>. An object enumerates its
  array-index keys (canonical decimals below \<open>2^32 - 1\<close>) first, in ascending numeric
  order, then its other keys in insertion order; an array and a string enumerate their
  indices; a number or a boolean has no own property.
\<close>

definition is_array_index :: "string \<Rightarrow> bool" where
  "is_array_index k =
     (case parseInt k of
        Num i \<Rightarrow> 0 \<le> i \<and> i < 4294967295 \<and> nat_digits (nat i) = k
      | _ \<Rightarrow> False)"

definition index_of_key :: "string \<Rightarrow> int" where
  "index_of_key k = (case parseInt k of Num i \<Rightarrow> i | _ \<Rightarrow> 0)"

definition own_property_order :: "(string \<times> 'a) list \<Rightarrow> (string \<times> 'a) list" where
  "own_property_order kvs =
     sort_key (\<lambda>kv. index_of_key (fst kv)) (filter (\<lambda>kv. is_array_index (fst kv)) kvs)
     @ filter (\<lambda>kv. \<not> is_array_index (fst kv)) kvs"

fun Object_entries :: "json \<Rightarrow> (string \<times> json) list" where
  "Object_entries (JObj kvs) = own_property_order kvs"
| "Object_entries (JArr vs) = zip (map nat_digits [0 ..< length vs]) vs"
| "Object_entries (JStr s) = zip (map nat_digits [0 ..< length s]) (map (\<lambda>c. JStr [c]) s)"
| "Object_entries _ = []"

text \<open>
  \<open>JSON.stringify(v)\<close> without indentation: the text that \<open>localStorage\<close> holds for a
  stored value. The members of an object are printed in the order of the list; the model
  uses the length of the text, which does not depend on the order.
\<close>

definition hex_digit :: "nat \<Rightarrow> char" where
  "hex_digit d = (if d < 10 then char_of (48 + d) else char_of (87 + d))"

definition quote_char :: "char \<Rightarrow> string" where
  "quote_char c =
     (let n = (of_char c :: nat) in
      if n = 34 then [CHR 0x5C, CHR 0x22]
      else if n = 92 then [CHR 0x5C, CHR 0x5C]
      else if n = 8 then [CHR 0x5C, CHR ''b'']
      else if n = 12 then [CHR 0x5C, CHR ''f'']
      else if n = 10 then [CHR 0x5C, CHR ''n'']
      else if n = 13 then [CHR 0x5C, CHR ''r'']
      else if n = 9 then [CHR 0x5C, CHR ''t'']
      else if n < 32 then [CHR 0x5C, CHR ''u'', CHR ''0'', CHR ''0'',
                           hex_digit (n div 16), hex_digit (n mod 16)]
      else [c])"

definition quote :: "string \<Rightarrow> string" where
  "quote s = CHR 0x22 # concat (map quote_char s) @ [CHR 0x22]"

fun join :: "string \<Rightarrow> string list \<Rightarrow> string" where
  "join sep [] = []"
| "join sep [x] = x"
| "join sep (x # y # ys) = x @ sep @ join sep (y # ys)"

fun JSON_stringify :: "json \<Rightarrow> string" where
  "JSON_stringify JNull = ''null''"
| "JSON_stringify (JBool b) = (if b then ''true'' else ''false'')"
| "JSON_stringify (JNum i) = number_to_string (Num i)"
| "JSON_stringify (JStr s) = quote s"
| "JSON_stringify (JArr vs) = ''['' @ join '','' (map JSON_stringify vs) @ '']''"
| "JSON_stringify (JObj kvs) =
     ''{'' @ join '','' (map (\<lambda>(k, v). quote k @ '':'' @ JSON_stringify v) kvs) @ ''}''"


text \<open>
  \<open>String(v)\<close>, the key of the default \<open>Array.prototype.sort\<close>; an array prints its
  elements joined by commas with \<open>null\<close> as the empty text; an object is taken to have
  no member named \<open>toString\<close> or \<open>valueOf\<close>.
\<close>

fun js_toString :: "json \<Rightarrow> string" where
  "js_toString JNull = ''null''"
| "js_toString (JBool b) = (if b then ''true'' else ''false'')"
| "js_toString (JNum i) = number_to_string (Num i)"
| "js_toString (JStr s) = s"
| "js_toString (JArr vs) =
     join '','' (map (\<lambda>v. if v = JNull then [] else js_toString v) vs)"
| "js_toString (JObj kvs) = ''[object Object]''"

section \<open>The browser's localStorage\<close>

text \<open>
  \<open>localStorage\<close> maps keys to strings and enumerates its keys in a fixed order. The
  program writes two kinds of string: the raw text of a note, \<open>Text s\<close>, and
  \<open>JSON.stringify v\<close>, written \<open>Json v\<close>; reading the latter back with \<open>JSON.parse\<close>
  gives \<open>v\<close>. No operation of the program stores raw text under a tag key, and the model
  does not parse raw text: \<open>JSON.parse\<close> of a \<open>Text\<close> is a syntax error here.
  \<open>setItem\<close> throws \<open>QuotaExceededError\<close> when the store would hold more code units
  than its quota.
\<close>

datatype item = Text string | Json json

definition item_text :: "item \<Rightarrow> string" where
  "item_text it = (case it of Text s \<Rightarrow> s | Json v \<Rightarrow> JSON_stringify v)"

definition JSON_parse :: "item \<Rightarrow> error + json" where
  "JSON_parse it = (case it of Text s \<Rightarrow> Inl SyntaxError | Json v \<Rightarrow> Inr v)"

record localStorage =
  items :: "(string \<times> item) list"
  quota :: nat

definition usage :: "(string \<times> item) list \<Rightarrow> nat" where
  "usage kvs = sum_list (map (\<lambda>kv. length (fst kv) + length (item_text (snd kv))) kvs)"

definition getItem :: "localStorage \<Rightarrow> string \<Rightarrow> item option" where
  "getItem ls key = map_of (items ls) key"

definition setItem :: "localStorage \<Rightarrow> string \<Rightarrow> item \<Rightarrow> error + localStorage" where
  "setItem ls key v =
     (let items' = AList.update key v (items ls)
      in if usage items' \<le> quota ls then Inr (ls\<lparr>items := items'\<rparr>)
         else Inl QuotaExceededError)"

definition removeItem :: "localStorage \<Rightarrow> string \<Rightarrow> localStorage" where
  "removeItem ls key = ls\<lparr>items := AList.delete key (items ls)\<rparr>"

definition storage_keys :: "localStorage \<Rightarrow> string list" where
  "storage_keys ls = map fst (items ls)"

section \<open>Custom data service, local backend (js/services/customData.js)\<close>

text \<open>
  The functions of the service are \<open>async\<close>. With \<open>useSupabase\<close> false none of them
  awaits anything before it has read or written \<open>localStorage\<close>, so the effect of a call
  is complete when the call returns; a function is modelled by that effect and by the
  value its promise resolves to. The promise itself is kept for \<open>mergeCustomData\<close>,
  whose caller does not await it.
\<close>

definition CUSTOM_TAGS_PREFIX :: string where
  "CUSTOM_TAGS_PREFIX = ''custom_tags_''"

definition NOTES_PREFIX :: string where
  "NOTES_PREFIX = ''notes_''"

text \<open>
  \<open>getCustomTags(repoId)\<close> with \<open>useSupabase\<close> false: the parsed entry, and the empty
  array when there is no entry, the entry is the empty string, or parsing throws.
\<close>

definition getCustomTags :: "localStorage \<Rightarrow> number \<Rightarrow> json" where
  "getCustomTags ls repoId =
     (let key = CUSTOM_TAGS_PREFIX @ number_to_string repoId
      in case getItem ls key of
           None \<Rightarrow> JArr []
         | Some data \<Rightarrow>
             (if item_text data = [] then JArr []
              else (case JSON_parse data of Inl e \<Rightarrow> JArr [] | Inr v \<Rightarrow> v)))"

text \<open>
  \<open>setCustomTags(repoId, tags)\<close>: the whole list is written; a failed write is caught
  and reported as \<open>false\<close>.
\<close>

definition setCustomTags :: "localStorage \<Rightarrow> number \<Rightarrow> json \<Rightarrow> bool \<times> localStorage" where
  "setCustomTags ls repoId tags =
     (let key = CUSTOM_TAGS_PREFIX @ number_to_string repoId
      in case setItem ls key (Json tags) of
           Inr ls' \<Rightarrow> (True, ls')
         | Inl e \<Rightarrow> (False, ls))"

definition getNotes :: "localStorage \<Rightarrow> number \<Rightarrow> string" where
  "getNotes ls repoId =
     (let key = NOTES_PREFIX @ number_to_string repoId
      in case getItem ls key of
           None \<Rightarrow> []
         | Some data \<Rightarrow> (if item_text data = [] then [] else item_text data))"

text \<open>
  \<open>setNotes(repoId, notes)\<close>: \<open>notes.trim()\<close> throws for a value that is not a string,
  which the function catches; a string whose trimmed text is not empty is written as it
  is given, any other string removes the entry.
\<close>

definition setNotes :: "localStorage \<Rightarrow> number \<Rightarrow> json \<Rightarrow> bool \<times> localStorage" where
  "setNotes ls repoId nts =
     (let key = NOTES_PREFIX @ number_to_string repoId
      in case nts of
           JStr s \<Rightarrow>
             (if trim s \<noteq> [] then
                (case setItem ls key (Text s) of
                   Inr ls' \<Rightarrow> (True, ls')
                 | Inl e \<Rightarrow> (False, ls))
              else (True, removeItem ls key))
         | _ \<Rightarrow> (False, ls))"


text \<open>
  Repository records of the data file, and the record enriched with the user's tags and
  notes. \<open>description\<close> and \<open>language\<close> may be \<open>null\<close>, \<open>topics\<close> may be missing.
\<close>

record owner =
  login :: string
  avatar_url :: string

record repo =
  repo_id :: int
  name :: string
  full_name :: string
  owner :: owner
  description :: "string option"
  language :: "string option"
  topics :: "string list option"
  stargazers_count :: int
  updated_at :: string
  starred_at :: "string option"
  html_url :: string

record enriched = repo +
  custom_tags :: json
  notes_text :: string

text \<open>
  \<open>mergeCustomData(repo)\<close> is an \<open>async\<close> function: it returns a promise, which resolves
  to \<open>{...repo, custom_tags, notes}\<close>. A promise is known here by the value it resolves
  to.
\<close>

datatype 'a promise = Promise 'a

definition mergeCustomData :: "localStorage \<Rightarrow> repo \<Rightarrow> enriched promise" where
  "mergeCustomData ls r =
     Promise
       (repo.extend r
          (enriched.fields (getCustomTags ls (Num (repo_id r))) (getNotes ls (Num (repo_id r)))))"



text \<open>
  \<open>importCustomData(data)\<close>: the format check, then every tag entry and every notes entry
  is written through \<open>setCustomTags\<close> and \<open>setNotes\<close>, whose results are not looked at.
\<close>

definition import_tags :: "(string \<times> json) list \<Rightarrow> localStorage \<Rightarrow> localStorage" where
  "import_tags entries ls =
     fold (\<lambda>(repoId, tags) st. snd (setCustomTags st (parseInt repoId) tags)) entries ls"

definition import_notes :: "(string \<times> json) list \<Rightarrow> localStorage \<Rightarrow> localStorage" where
  "import_notes entries ls =
     fold (\<lambda>(repoId, nts) st. snd (setNotes st (parseInt repoId) nts)) entries ls"

definition importCustomData :: "localStorage \<Rightarrow> json \<Rightarrow> bool \<times> localStorage" where
  "importCustomData ls data =
     (case member data ''tags'' of
        Inl e \<Rightarrow> (False, ls)
      | Inr None \<Rightarrow> (False, ls)
      | Inr (Some tags) \<Rightarrow>
          (if \<not> truthy tags then (False, ls)
           else (case member data ''notes'' of
                   Inl e \<Rightarrow> (False, ls)
                 | Inr None \<Rightarrow> (False, ls)
                 | Inr (Some nts) \<Rightarrow>
                     (if \<not> truthy nts then (False, ls)
                      else (True, import_notes (Object_entries nts)
                                    (import_tags (Object_entries tags) ls))))))"

text \<open>
  \<open>getAllUniqueTags()\<close>: a \<open>Set\<close> keeps insertion order and holds a primitive value once,
  while every parsed array or object is a new object; \<open>forEach\<close> exists on arrays only.
  The result is sorted by the default comparator, which is stable and compares the
  strings of the elements by code unit.
\<close>

fun is_primitive :: "json \<Rightarrow> bool" where
  "is_primitive (JArr _) = False"
| "is_primitive (JObj _) = False"
| "is_primitive _ = True"

definition Set_add :: "json list \<Rightarrow> json \<Rightarrow> json list" where
  "Set_add acc v = (if is_primitive v \<and> v \<in> set acc then acc else acc @ [v])"

fun getAllUniqueTags_loop :: "localStorage \<Rightarrow> string list \<Rightarrow> json list \<Rightarrow> error + json list" where
  "getAllUniqueTags_loop ls [] tags = Inr tags"
| "getAllUniqueTags_loop ls (key # keys) tags =
     (if prefix CUSTOM_TAGS_PREFIX key then
        (case getItem ls key of
           None \<Rightarrow> Inl TypeError
         | Some data \<Rightarrow>
             (case JSON_parse data of
                Inl e \<Rightarrow> Inl e
              | Inr (JArr repoTags) \<Rightarrow> getAllUniqueTags_loop ls keys (foldl Set_add tags repoTags)
              | Inr _ \<Rightarrow> Inl TypeError))
      else getAllUniqueTags_loop ls keys tags)"

definition getAllUniqueTags :: "localStorage \<Rightarrow> error + json list" where
  "getAllUniqueTags ls =
     (case getAllUniqueTags_loop ls (storage_keys ls) [] of
        Inl e \<Rightarrow> Inl e
      | Inr tags \<Rightarrow> Inr (sort_key js_toString tags))"

section \<open>Data loader (js/services/storage.js)\<close>

text \<open>
  What \<open>fetch\<close> and \<open>response.json()\<close> deliver: no response at all, or a status with a
  body that parses (\<open>Some\<close>) or does not (\<open>None\<close>).
\<close>

datatype fetch_outcome = NetworkFailure | Response nat "json option"

definition USERNAME :: string where
  "USERNAME = ''nicolasbagatello''"

definition response_ok :: "nat \<Rightarrow> bool" where
  "response_ok status = (200 \<le> status \<and> status \<le> 299)"

fun isArray :: "json option \<Rightarrow> bool" where
  "isArray (Some (JArr _)) = True"
| "isArray _ = False"

definition fallback_data :: json where
  "fallback_data =
     JObj [(''metadata'',
             JObj [(''lastUpdated'', JNull), (''username'', JStr USERNAME),
                   (''totalStars'', JNum 0), (''version'', JStr ''1.0'')]),
           (''repositories'', JArr [])]"

text \<open>The \<open>try\<close> block of \<open>loadStarsData\<close>.\<close>

definition loadStarsData_try :: "fetch_outcome \<Rightarrow> error + json" where
  "loadStarsData_try r =
     (case r of
        NetworkFailure \<Rightarrow> Inl TypeError
      | Response status body \<Rightarrow>
          (if \<not> response_ok status then Inl (Error ''HTTP error'')
           else (case body of
                   None \<Rightarrow> Inl SyntaxError
                 | Some data \<Rightarrow>
                     (case member data ''metadata'' of
                        Inl e \<Rightarrow> Inl e
                      | Inr md \<Rightarrow>
                          (if \<not> truthy_opt md then Inl (Error ''Invalid data structure'')
                           else (case member data ''repositories'' of
                                   Inl e \<Rightarrow> Inl e
                                 | Inr rs \<Rightarrow>
                                     (if \<not> isArray rs then Inl (Error ''Invalid data structure'')
                                      else Inr data)))))))"

text \<open>\<open>loadStarsData()\<close>: the \<open>catch\<close> block turns every error into the empty structure.\<close>

definition loadStarsData :: "fetch_outcome \<Rightarrow> error + json" where
  "loadStarsData r =
     (case loadStarsData_try r of Inr data \<Rightarrow> Inr data | Inl e \<Rightarrow> Inr fallback_data)"


section \<open>Filters and search (js/ui/filters.js)\<close>

definition STARS_DESC :: string where "STARS_DESC = ''stars-desc''"
definition STARS_ASC :: string where "STARS_ASC = ''stars-asc''"
definition NAME_ASC :: string where "NAME_ASC = ''name-asc''"
definition NAME_DESC :: string where "NAME_DESC = ''name-desc''"
definition UPDATED_DESC :: string where "UPDATED_DESC = ''updated-desc''"
definition UPDATED_ASC :: string where "UPDATED_ASC = ''updated-asc''"

text \<open>
  \<open>currentFilters\<close>. The empty string is the unset search and the unset language, as in
  the source.
\<close>

record filters =
  search :: string
  f_language :: string
  f_topics :: "string list"
  customTags :: "string list"
  f_sort :: string

definition defaultFilters :: filters where
  "defaultFilters =
     \<lparr>search = [], f_language = [], f_topics = [], customTags = [], f_sort = STARS_DESC\<rparr>"

text \<open>
  \<open>Array.prototype.filter\<close> and \<open>Array.prototype.every\<close> with a callback that may throw:
  the first exception leaves the loop; \<open>every\<close> stops at the first \<open>false\<close>.
\<close>

fun filterE :: "('a \<Rightarrow> error + bool) \<Rightarrow> 'a list \<Rightarrow> error + 'a list" where
  "filterE p [] = Inr []"
| "filterE p (x # xs) =
     (case p x of
        Inl e \<Rightarrow> Inl e
      | Inr b \<Rightarrow>
          (case filterE p xs of
             Inl e \<Rightarrow> Inl e
           | Inr ys \<Rightarrow> Inr (if b then x # ys else ys)))"

fun everyE :: "('a \<Rightarrow> error + bool) \<Rightarrow> 'a list \<Rightarrow> error + bool" where
  "everyE p [] = Inr True"
| "everyE p (x # xs) =
     (case p x of
        Inl e \<Rightarrow> Inl e
      | Inr b \<Rightarrow> (if b then everyE p xs else Inr False))"

text \<open>
  The search callback. \<open>||\<close> evaluates its operands from the left and stops at the first
  true one; \<open>repo.description.toLowerCase()\<close> throws \<open>TypeError\<close> on \<open>null\<close>.
\<close>

definition matchesSearch :: "string \<Rightarrow> enriched \<Rightarrow> error + bool" where
  "matchesSearch q r =
     (if includes_str (toLowerCase (name r)) q then Inr True
      else (case description r of
              None \<Rightarrow> Inl TypeError
            | Some d \<Rightarrow>
                Inr (includes_str (toLowerCase d) q
                     \<or> includes_str (toLowerCase (full_name r)) q
                     \<or> includes_str (toLowerCase (login (owner r))) q)))"

text \<open>\<open>repo.topics && repo.topics.includes(topic)\<close>.\<close>

definition hasTopic :: "enriched \<Rightarrow> string \<Rightarrow> bool" where
  "hasTopic r topic = (case topics r of None \<Rightarrow> False | Some ts \<Rightarrow> topic \<in> set ts)"

text \<open>
  \<open>repo.custom_tags && repo.custom_tags.includes(tag)\<close>: an array is searched for the
  element, a string for the substring, and a number, \<open>true\<close> or an object has no method
  \<open>includes\<close>.
\<close>

definition hasCustomTag :: "enriched \<Rightarrow> string \<Rightarrow> error + bool" where
  "hasCustomTag r tag =
     (if \<not> truthy (custom_tags r) then Inr False
      else (case custom_tags r of
              JArr ts \<Rightarrow> Inr (JStr tag \<in> set ts)
            | JStr s \<Rightarrow> Inr (includes_str s tag)
            | _ \<Rightarrow> Inl TypeError))"

text \<open>The four filter steps of \<open>applyFilters\<close>, in the order of the source.\<close>

definition filterRepositories :: "filters \<Rightarrow> enriched list \<Rightarrow> error + enriched list" where
  "filterRepositories f allRepositories =
     (case (if search f \<noteq> [] then filterE (matchesSearch (search f)) allRepositories
            else Inr allRepositories) of
        Inl e \<Rightarrow> Inl e
      | Inr s1 \<Rightarrow>
          (let s2 = (if f_language f \<noteq> []
                     then filter (\<lambda>r. language r = Some (f_language f)) s1 else s1);
               s3 = (if f_topics f \<noteq> []
                     then filter (\<lambda>r. list_all (hasTopic r) (f_topics f)) s2 else s2)
           in if customTags f \<noteq> []
              then filterE (\<lambda>r. everyE (hasCustomTag r) (customTags f)) s3
              else Inr s3))"

text \<open>
  \<open>Array.prototype.sort(cmp)\<close> is stable: insertion from the right keeps equal elements
  in their order. A comparator result that is NaN counts as 0; it is \<open>None\<close> here.
  \<open>localeCompare\<close> and the parsing of dates belong to the platform and are parameters.
\<close>

fun insert_by :: "('a \<Rightarrow> 'a \<Rightarrow> int) \<Rightarrow> 'a \<Rightarrow> 'a list \<Rightarrow> 'a list" where
  "insert_by cmp x [] = [x]"
| "insert_by cmp x (y # ys) = (if cmp x y \<le> 0 then x # y # ys else y # insert_by cmp x ys)"

definition sort_by :: "('a \<Rightarrow> 'a \<Rightarrow> int) \<Rightarrow> 'a list \<Rightarrow> 'a list" where
  "sort_by cmp xs = foldr (insert_by cmp) xs []"

definition date_diff :: "(string \<Rightarrow> int option) \<Rightarrow> string \<Rightarrow> string \<Rightarrow> int" where
  "date_diff dateValue a b =
     (case (dateValue a, dateValue b) of (Some x, Some y) \<Rightarrow> x - y | _ \<Rightarrow> 0)"

definition sortRepositories ::
  "(string \<Rightarrow> string \<Rightarrow> int) \<Rightarrow> (string \<Rightarrow> int option) \<Rightarrow> enriched list \<Rightarrow> string
    \<Rightarrow> enriched list" where
  "sortRepositories localeCompare dateValue repos sortOption =
     (if sortOption = STARS_DESC
        then sort_by (\<lambda>a b. stargazers_count b - stargazers_count a) repos
      else if sortOption = STARS_ASC
        then sort_by (\<lambda>a b. stargazers_count a - stargazers_count b) repos
      else if sortOption = NAME_ASC
        then sort_by (\<lambda>a b. localeCompare (name a) (name b)) repos
      else if sortOption = NAME_DESC
        then sort_by (\<lambda>a b. localeCompare (name b) (name a)) repos
      else if sortOption = UPDATED_DESC
        then sort_by (\<lambda>a b. date_diff dateValue (updated_at b) (updated_at a)) repos
      else if sortOption = UPDATED_ASC
        then sort_by (\<lambda>a b. date_diff dateValue (updated_at a) (updated_at b)) repos
      else sort_by (\<lambda>a b. stargazers_count b - stargazers_count a) repos)"

text \<open>\<open>applyFilters()\<close>: the list that is handed to the rendering, or the exception.\<close>

definition applyFilters ::
  "(string \<Rightarrow> string \<Rightarrow> int) \<Rightarrow> (string \<Rightarrow> int option) \<Rightarrow> filters \<Rightarrow> enriched list
    \<Rightarrow> error + enriched list" where
  "applyFilters localeCompare dateValue f allRepositories =
     (case filterRepositories f allRepositories of
        Inl e \<Rightarrow> Inl e
      | Inr filtered \<Rightarrow> Inr (sortRepositories localeCompare dateValue filtered (f_sort f)))"

text \<open>
  The entry points that write \<open>currentFilters.search\<close>: the debounced input handler,
  the removal of the search chip, \<open>clearFilters\<close>, and \<open>initURLFilters\<close>, which reads the
  decoded query parameters (\<open>get\<close> gives the first value of a name).
\<close>

definition onSearchInput :: "filters \<Rightarrow> string \<Rightarrow> filters" where
  "onSearchInput f v = f\<lparr>search := trim (toLowerCase v)\<rparr>"

definition removeSearchFilter :: "filters \<Rightarrow> filters" where
  "removeSearchFilter f = f\<lparr>search := []\<rparr>"

definition clearFilters :: "filters \<Rightarrow> filters" where
  "clearFilters f = defaultFilters"

definition initURLFilters :: "(string \<times> string) list \<Rightarrow> filters \<Rightarrow> filters" where
  "initURLFilters params f =
     (let f1 = (case map_of params ''search'' of None \<Rightarrow> f | Some v \<Rightarrow> f\<lparr>search := v\<rparr>);
          f2 = (case map_of params ''language'' of None \<Rightarrow> f1 | Some v \<Rightarrow> f1\<lparr>f_language := v\<rparr>);
          f3 = (case map_of params ''topic'' of None \<Rightarrow> f2
                | Some v \<Rightarrow> f2\<lparr>f_topics := split CHR '','' v\<rparr>)
      in (case map_of params ''sort'' of None \<Rightarrow> f3 | Some v \<Rightarrow> f3\<lparr>f_sort := v\<rparr>))"

section \<open>Repository cards and start-up (js/ui/cards.js, js/app.js)\<close>

text \<open>
  The Enter handler of a card's tag input, as a function of the store, the card's record
  and the text of the input; it gives the new store and record, or the exception that
  leaves the handler. The result of \<open>setCustomTags\<close> is not looked at.
\<close>

definition addTag :: "localStorage \<Rightarrow> enriched \<Rightarrow> string \<Rightarrow> error + (localStorage \<times> enriched)" where
  "addTag ls r v =
     (if trim v = [] then Inr (ls, r)
      else
        (let newTag = toLowerCase (trim v);
             currentTags = (if truthy (custom_tags r) then custom_tags r else JArr [])
         in case currentTags of
              JArr ts \<Rightarrow>
                (if JStr newTag \<in> set ts then Inr (ls, r)
                 else (let updatedTags = JArr (ts @ [JStr newTag])
                       in Inr (snd (setCustomTags ls (Num (repo_id r)) updatedTags),
                               r\<lparr>custom_tags := updatedTags\<rparr>)))
            | JStr s \<Rightarrow>
                (if includes_str s newTag then Inr (ls, r)
                 else (let updatedTags = JArr (map (\<lambda>c. JStr [c]) s @ [JStr newTag])
                       in Inr (snd (setCustomTags ls (Num (repo_id r)) updatedTags),
                               r\<lparr>custom_tags := updatedTags\<rparr>)))
            | _ \<Rightarrow> Inl TypeError))"

text \<open>\<open>removeTag(repo, tag, element)\<close>; only an array has \<open>filter\<close>.\<close>

definition removeTag :: "localStorage \<Rightarrow> enriched \<Rightarrow> string \<Rightarrow> error + (localStorage \<times> enriched)" where
  "removeTag ls r tag =
     (case custom_tags r of
        JArr ts \<Rightarrow>
          (let updatedTags = JArr (filter (\<lambda>t. t \<noteq> JStr tag) ts)
           in Inr (snd (setCustomTags ls (Num (repo_id r)) updatedTags),
                   r\<lparr>custom_tags := updatedTags\<rparr>))
      | _ \<Rightarrow> Inl TypeError)"

text \<open>
  The list that \<open>init\<close> hands to \<open>initFilters\<close>: \<open>data.repositories.map(repo =>
  mergeCustomData(repo))\<close>. The call is not awaited, so an element of the list is the
  promise that the call returned and not the record it resolves to. An element is an
  object of one of the two kinds; \<open>custom_tags\<close> and \<open>notes\<close> read from a promise are
  \<open>undefined\<close>, here \<open>None\<close>.
\<close>

datatype list_element = Record enriched | Pending "enriched promise"

definition repositoriesWithCustomData :: "localStorage \<Rightarrow> repo list \<Rightarrow> list_element list" where
  "repositoriesWithCustomData ls repositories =
     map (\<lambda>repo. Pending (mergeCustomData ls repo)) repositories"

definition read_custom_tags :: "list_element \<Rightarrow> json option" where
  "read_custom_tags e = (case e of Record r \<Rightarrow> Some (custom_tags r) | Pending p \<Rightarrow> None)"

definition read_notes :: "list_element \<Rightarrow> string option" where
  "read_notes e = (case e of Record r \<Rightarrow> Some (notes_text r) | Pending p \<Rightarrow> None)"

section \<open>Vocabulary of the properties\<close>

text \<open>A member read that gives \<open>undefined\<close> where the read throws.\<close>

definition member_or_undefined :: "json \<Rightarrow> string \<Rightarrow> json option" where
  "member_or_undefined v m = (case member v m of Inl e \<Rightarrow> None | Inr x \<Rightarrow> x)"

text \<open>
  The structure check of the loader, \<open>!data.metadata || !Array.isArray(data.repositories)\<close>:
  it fails when the metadata member does not count as true (it is missing, \<open>null\<close>,
  \<open>false\<close>, 0 or the empty string) or the repositories are not an array. A fetch
  outcome is unusable when there is no response, the status is not a success, the body
  does not parse, or the data fails the check.
\<close>

definition fails_structure_check :: "json \<Rightarrow> bool" where
  "fails_structure_check data =
     (\<not> truthy_opt (member_or_undefined data ''metadata'')
      \<or> \<not> isArray (member_or_undefined data ''repositories''))"

definition unusable :: "fetch_outcome \<Rightarrow> bool" where
  "unusable r =
     (case r of
        NetworkFailure \<Rightarrow> True
      | Response status body \<Rightarrow>
          \<not> response_ok status
          \<or> (case body of None \<Rightarrow> True | Some data \<Rightarrow> fails_structure_check data))"


text \<open>
  A store whose tag entries are what \<open>setCustomTags\<close> is documented to take, arrays of
  strings; the tag list stored under a key; the tags of all tag entries.
\<close>

fun is_JStr :: "json \<Rightarrow> bool" where
  "is_JStr (JStr s) = True"
| "is_JStr _ = False"

fun is_string_array :: "item \<Rightarrow> bool" where
  "is_string_array (Json (JArr ts)) = list_all is_JStr ts"
| "is_string_array _ = False"

definition string_tag_store :: "localStorage \<Rightarrow> bool" where
  "string_tag_store ls =
     list_all (\<lambda>key. prefix CUSTOM_TAGS_PREFIX key \<longrightarrow>
                 (case getItem ls key of None \<Rightarrow> False | Some it \<Rightarrow> is_string_array it))
       (storage_keys ls)"

definition stored_tag_list :: "localStorage \<Rightarrow> string \<Rightarrow> json list" where
  "stored_tag_list ls key = (case getItem ls key of Some (Json (JArr ts)) \<Rightarrow> ts | _ \<Rightarrow> [])"

definition all_stored_tags :: "localStorage \<Rightarrow> json set" where
  "all_stored_tags ls =
     (\<Union>key \<in> set (filter (prefix CUSTOM_TAGS_PREFIX) (storage_keys ls)).
        set (stored_tag_list ls key))"

text \<open>
  A normalised string is its own trimmed lowercase form. A tag list is in order
  (\<open>tags_ok\<close>) when it is an array of normalised strings none of which occurs twice; it
  is free of duplicates in the sense of the specification when its tags differ after
  normalisation.
\<close>

definition normalised :: "string \<Rightarrow> bool" where
  "normalised s = (toLowerCase (trim s) = s)"

fun normalised_tag :: "json \<Rightarrow> bool" where
  "normalised_tag (JStr s) = normalised s"
| "normalised_tag _ = False"

fun tags_ok :: "json \<Rightarrow> bool" where
  "tags_ok (JArr ts) = (distinct ts \<and> list_all normalised_tag ts)"
| "tags_ok _ = False"

fun normalise_tag :: "json \<Rightarrow> json" where
  "normalise_tag (JStr s) = JStr (toLowerCase (trim s))"
| "normalise_tag v = v"

fun duplicate_free :: "json \<Rightarrow> bool" where
  "duplicate_free (JArr ts) = distinct (map normalise_tag ts)"
| "duplicate_free _ = True"

fun tag_list :: "json \<Rightarrow> json list" where
  "tag_list (JArr ts) = ts"
| "tag_list _ = []"

text \<open>
  A store as the custom data service writes it for plain identifiers: every key once;
  under a tag key the JSON text of a value, under a notes key a text that is not blank;
  and the rest of every such key canonical, that is, a text that \<open>parseInt\<close> reads as
  a number whose text it is. An identifier is plain when it is NaN or an integer up to
  \<open>2^53\<close> in magnitude; the text of a plain identifier is canonical
  (\<open>canonical_number\<close>), the text \<open>1e+21\<close> of the identifier \<open>10^21\<close> is not.
  \<open>annotation_store_setCustomTags\<close> and \<open>annotation_store_setNotes\<close> show that the
  service keeps a store in this form as long as the identifiers are plain.
\<close>

fun plain_number :: "number \<Rightarrow> bool" where
  "plain_number NaN = True"
| "plain_number (Num i) = (\<bar>i\<bar> \<le> 9007199254740992)"
| "plain_number _ = False"

definition canonical_id :: "string \<Rightarrow> bool" where
  "canonical_id sfx = (number_to_string (parseInt sfx) = sfx)"

fun is_Json :: "item \<Rightarrow> bool" where
  "is_Json (Json v) = True"
| "is_Json (Text s) = False"

fun is_note :: "item \<Rightarrow> bool" where
  "is_note (Text s) = (trim s \<noteq> [])"
| "is_note (Json v) = False"

definition annotation_entry :: "string \<times> item \<Rightarrow> bool" where
  "annotation_entry kv =
     ((prefix CUSTOM_TAGS_PREFIX (fst kv) \<longrightarrow>
         is_Json (snd kv) \<and> canonical_id (drop (length CUSTOM_TAGS_PREFIX) (fst kv)))
      \<and> (prefix NOTES_PREFIX (fst kv) \<longrightarrow>
         is_note (snd kv) \<and> canonical_id (drop (length NOTES_PREFIX) (fst kv))))"

definition annotation_store :: "localStorage \<Rightarrow> bool" where
  "annotation_store ls = (distinct (storage_keys ls) \<and> list_all annotation_entry (items ls))"






text \<open>A decimal digit.\<close>

definition dec :: "char \<Rightarrow> bool" where
  "dec c = (48 \<le> (of_char c :: nat) \<and> (of_char c :: nat) \<le> 57)"

text \<open>Concrete inputs: a repository without description, stores, a payload.\<close>

definition alpha :: enriched where
  "alpha =
     \<lparr>repo_id = 1, name = ''alpha'', full_name = ''zzz/alpha'',
      owner = \<lparr>login = ''zzz'', avatar_url = []\<rparr>, description = None,
      language = Some ''Go'', topics = Some [''cli''], stargazers_count = 10,
      updated_at = [], starred_at = None, html_url = [],
      custom_tags = JArr [], notes_text = []\<rparr>"

definition alpha_repo :: repo where
  "alpha_repo =
     \<lparr>repo_id = 1, name = ''alpha'', full_name = ''zzz/alpha'',
      owner = \<lparr>login = ''zzz'', avatar_url = []\<rparr>, description = None,
      language = Some ''Go'', topics = Some [''cli''], stargazers_count = 10,
      updated_at = [], starred_at = None, html_url = []\<rparr>"

definition empty_store :: localStorage where
  "empty_store = \<lparr>items = [], quota = 1000\<rparr>"

definition two_repo_store :: localStorage where
  "two_repo_store =
     \<lparr>items = [(''custom_tags_1'', Json (JArr [JStr ''web'', JStr ''cli''])),
               (''notes_1'', Text ''read this''),
               (''custom_tags_2'', Json (JArr [JStr ''cli'', JStr ''api'']))],
      quota = 1000\<rparr>"

definition cool_store :: localStorage where
  "cool_store = \<lparr>items = [(''custom_tags_1'', Json (JArr [JStr ''cool'']))], quota = 1000\<rparr>"

definition cool_alpha :: enriched where
  "cool_alpha = alpha\<lparr>custom_tags := JArr [JStr ''cool'']\<rparr>"


definition duplicate_payload :: json where
  "duplicate_payload =
     JObj [(''tags'', JObj [(''1'', JArr [JStr ''cool'', JStr ''Cool ''])]), (''notes'', JObj [])]"






definition numeric_metadata :: json where
  "numeric_metadata = JObj [(''metadata'', JNum 5), (''repositories'', JArr [])]"

definition null_tags_payload :: json where
  "null_tags_payload = JObj [(''tags'', JObj [(''1'', JNull)]), (''notes'', JObj [])]"

definition nested_tags_payload :: json where
  "nested_tags_payload =
     JObj [(''tags'', JObj [(''1'', JArr [JArr [JStr ''x''], JArr [JStr ''x'']])]),
           (''notes'', JObj [])]"

section \<open>The search step and the filter pipeline\<close>

lemma matchesSearch_described:
  "description r = Some d \<Longrightarrow>
     matchesSearch q r =
       Inr (includes_str (toLowerCase (name r)) q \<or> includes_str (toLowerCase d) q
            \<or> includes_str (toLowerCase (full_name r)) q
            \<or> includes_str (toLowerCase (login (owner r))) q)"
  by (simp add: matchesSearch_def)

lemma matchesSearch_null_description:
  "description r = None \<Longrightarrow>
     matchesSearch q r =
       (if includes_str (toLowerCase (name r)) q then Inr True else Inl TypeError)"
  by (simp add: matchesSearch_def)

lemma filterE_result: "filterE p xs = Inr ys \<Longrightarrow> ys = filter (\<lambda>x. p x = Inr True) xs"
proof (induction xs arbitrary: ys)
  case Nil
  then show ?case by simp
next
  case (Cons x xs)
  then show ?case by (auto split: sum.splits if_splits)
qed

lemma set_insert_by: "set (insert_by cmp x ys) = insert x (set ys)"
  by (induction ys) auto

lemma set_sort_by: "set (sort_by cmp xs) = set xs"
  by (induction xs) (simp_all add: sort_by_def set_insert_by)

text \<open>
  Where the filter steps return, the result is the conjunction of the four predicates,
  and sorting keeps the set.
\<close>

lemma filterRepositories_conjunctive:
  assumes "filterRepositories f rs = Inr out"
  shows "set out =
     {r \<in> set rs. search f \<noteq> [] \<longrightarrow> matchesSearch (search f) r = Inr True}
     \<inter> {r \<in> set rs. f_language f \<noteq> [] \<longrightarrow> language r = Some (f_language f)}
     \<inter> {r \<in> set rs. list_all (hasTopic r) (f_topics f)}
     \<inter> {r \<in> set rs. everyE (hasCustomTag r) (customTags f) = Inr True}"
proof -
  obtain s1 where s1:
    "(if search f \<noteq> [] then filterE (matchesSearch (search f)) rs else Inr rs) = Inr s1"
    using assms by (auto simp: filterRepositories_def split: sum.splits)
  then have set1:
    "set s1 = {r \<in> set rs. search f \<noteq> [] \<longrightarrow> matchesSearch (search f) r = Inr True}"
    by (auto dest: filterE_result split: if_splits)
  define s2 where
    "s2 = (if f_language f \<noteq> [] then filter (\<lambda>r. language r = Some (f_language f)) s1 else s1)"
  define s3 where
    "s3 = (if f_topics f \<noteq> [] then filter (\<lambda>r. list_all (hasTopic r) (f_topics f)) s2 else s2)"
  have set2: "set s2 = set s1 \<inter> {r. f_language f \<noteq> [] \<longrightarrow> language r = Some (f_language f)}"
    by (auto simp: s2_def)
  have set3: "set s3 = set s2 \<inter> {r. list_all (hasTopic r) (f_topics f)}"
    by (auto simp: s3_def)
  have "filterRepositories f rs =
       (if customTags f \<noteq> [] then filterE (\<lambda>r. everyE (hasCustomTag r) (customTags f)) s3
        else Inr s3)"
    unfolding filterRepositories_def s1 s3_def s2_def Let_def by simp
  with assms have out:
    "(if customTags f \<noteq> [] then filterE (\<lambda>r. everyE (hasCustomTag r) (customTags f)) s3
      else Inr s3) = Inr out"
    by simp
  then have "set out = set s3 \<inter> {r. everyE (hasCustomTag r) (customTags f) = Inr True}"
    by (auto dest: filterE_result split: if_splits)
  with set1 set2 set3 show ?thesis by auto
qed

lemma applyFilters_conjunctive:
  assumes "applyFilters localeCompare dateValue f rs = Inr out"
  shows "set out =
     {r \<in> set rs. search f \<noteq> [] \<longrightarrow> matchesSearch (search f) r = Inr True}
     \<inter> {r \<in> set rs. f_language f \<noteq> [] \<longrightarrow> language r = Some (f_language f)}
     \<inter> {r \<in> set rs. list_all (hasTopic r) (f_topics f)}
     \<inter> {r \<in> set rs. everyE (hasCustomTag r) (customTags f) = Inr True}"
proof -
  from assms obtain filtered where fl: "filterRepositories f rs = Inr filtered"
    and out: "out = sortRepositories localeCompare dateValue filtered (f_sort f)"
    by (auto simp: applyFilters_def split: sum.splits)
  have "set out = set filtered"
    by (simp add: out sortRepositories_def set_sort_by)
  with filterRepositories_conjunctive [OF fl] show ?thesis by simp
qed

text \<open>
  C1: the search step is total and selects a record exactly when one of its four fields
  contains the search string, also for a record whose description is null. The code
  breaks this: the record \<open>alpha\<close> has no description, its full name contains
  \<open>zzz\<close>, and the search step throws instead of selecting it.
\<close>

theorem search_step_throws_on_null_description:
  "filterE (matchesSearch ''zzz'') [alpha] = Inl TypeError
   \<and> includes_str (toLowerCase (full_name alpha)) ''zzz''"
  by code_simp

text \<open>
  C2: for every filter state and every input list the recomputation produces the
  intersection of the four predicates' matching sets. On the list that holds \<open>alpha\<close>,
  with the search string \<open>zzz\<close>, no list is produced: the exception of the search step
  leaves \<open>applyFilters\<close>.
\<close>

theorem applyFilters_throws_on_null_description:
  "applyFilters localeCompare dateValue (defaultFilters\<lparr>search := ''zzz''\<rparr>) [alpha]
     = Inl TypeError"
  by (simp add: applyFilters_def filterRepositories_def defaultFilters_def) code_simp

section \<open>Notes\<close>

lemma setNotes_blank:
  assumes "trim s = []"
  shows "setNotes ls repoId (JStr s) = (True, removeItem ls (NOTES_PREFIX @ number_to_string repoId))"
    and "getNotes (snd (setNotes ls repoId (JStr s))) repoId = []"
    and "NOTES_PREFIX @ number_to_string repoId \<notin> set (storage_keys (snd (setNotes ls repoId (JStr s))))"
  using assms
  by (simp_all add: setNotes_def getNotes_def removeItem_def getItem_def storage_keys_def
        AList.delete_conv' AList.delete_keys)

lemma setNotes_nonblank:
  assumes "trim s \<noteq> []"
    and "usage (AList.update (NOTES_PREFIX @ number_to_string repoId) (Text s) (items ls)) \<le> quota ls"
  shows "fst (setNotes ls repoId (JStr s))"
    and "getNotes (snd (setNotes ls repoId (JStr s))) repoId = s"
proof -
  from assms(1) have "s \<noteq> []" by (auto simp: trim_def)
  with assms show "fst (setNotes ls repoId (JStr s))"
    and "getNotes (snd (setNotes ls repoId (JStr s))) repoId = s"
    by (simp_all add: setNotes_def setItem_def getNotes_def getItem_def Let_def
          AList.update_conv' item_text_def)
qed

text \<open>
  C3: \<open>setNotes\<close> stores the trimmed text when it is not empty, and deletes the entry
  when it is. The deletion holds (\<open>setNotes_blank\<close>); the stored text does not: the note
  \<open>'' hi ''\<close> is stored with its blanks, where the trimmed text is \<open>''hi''\<close>.
\<close>

theorem setNotes_stores_untrimmed_text:
  "setNotes empty_store (Num 1) (JStr '' hi '')
     = (True, \<lparr>items = [(''notes_1'', Text '' hi '')], quota = 1000\<rparr>)
   \<and> getNotes (snd (setNotes empty_store (Num 1) (JStr '' hi ''))) (Num 1) = '' hi ''
   \<and> trim '' hi '' = ''hi''"
  by code_simp


section \<open>Normal form of search strings and tags\<close>

lemma isWhiteSpace_toLowerCase_char [simp]: "isWhiteSpace (toLowerCase_char c) = isWhiteSpace c"
  by (auto simp: isWhiteSpace_def toLowerCase_char_def Let_def)

lemma toLowerCase_char_idem [simp]: "toLowerCase_char (toLowerCase_char c) = toLowerCase_char c"
  by (auto simp: toLowerCase_char_def Let_def)

lemma toLowerCase_idem [simp]: "toLowerCase (toLowerCase s) = toLowerCase s"
  by (simp add: toLowerCase_def)

lemma dropWhile_isWhiteSpace_toLowerCase:
  "dropWhile isWhiteSpace (toLowerCase s) = toLowerCase (dropWhile isWhiteSpace s)"
  by (induction s) (simp_all add: toLowerCase_def)

lemma trim_toLowerCase: "trim (toLowerCase s) = toLowerCase (trim s)"
proof -
  have r: "rev (toLowerCase s) = toLowerCase (rev s)" for s
    by (simp add: toLowerCase_def rev_map)
  show ?thesis
    by (simp add: trim_def dropWhile_isWhiteSpace_toLowerCase r)
qed

lemma dropWhile_rev_dropWhile:
  "dropWhile P (rev (dropWhile P (rev (dropWhile P s)))) = rev (dropWhile P (rev (dropWhile P s)))"
proof (cases "dropWhile P s")
  case Nil
  show ?thesis unfolding Nil by simp
next
  case (Cons x xs)
  then have x: "\<not> P x" by (metis dropWhile_eq_Cons_conv)
  have "dropWhile P (rev xs @ [x]) =
          (if \<forall>y\<in>set (rev xs). P y then [x] else dropWhile P (rev xs) @ [x])"
    using x by (simp add: dropWhile_append)
  then obtain zs where "dropWhile P (rev (x # xs)) = zs @ [x]"
    by (cases "\<forall>y\<in>set (rev xs). P y") auto
  then have "rev (dropWhile P (rev (x # xs))) = x # rev zs" by simp
  with x show ?thesis unfolding Cons by simp
qed

lemma trim_idem [simp]: "trim (trim s) = trim s"
  by (simp add: trim_def dropWhile_rev_dropWhile)

lemma normalised_newTag: "normalised (toLowerCase (trim v))"
  by (simp add: normalised_def trim_toLowerCase)

text \<open>The input handler, the chip removal and \<open>clearFilters\<close> leave a normalised search.\<close>

lemma onSearchInput_normalised: "normalised (search (onSearchInput f v))"
  by (simp add: onSearchInput_def normalised_def trim_toLowerCase)

lemma removeSearchFilter_normalised: "normalised (search (removeSearchFilter f))"
  by (simp add: removeSearchFilter_def normalised_def trim_def toLowerCase_def)

lemma clearFilters_normalised: "normalised (search (clearFilters f))"
  by (simp add: clearFilters_def defaultFilters_def normalised_def trim_def toLowerCase_def)

text \<open>
  C9: the search string of every reachable filter state is lowercase and trimmed. The
  input handler normalises it; \<open>initURLFilters\<close> does not: the query \<open>?search=React%20\<close>
  gives the search string \<open>''React ''\<close>, whose normal form is \<open>''react''\<close>.
\<close>

theorem initURLFilters_search_not_normalised:
  "search (initURLFilters [(''search'', ''React '')] defaultFilters) = ''React ''
   \<and> search (onSearchInput defaultFilters ''React '') = ''react''"
  by code_simp

section \<open>Merging at load time\<close>

text \<open>
  The merge step itself: the promise of \<open>mergeCustomData\<close> resolves to the input record
  with \<open>custom_tags\<close> and \<open>notes\<close> read from the store under the record's identifier, every
  other field unchanged.
\<close>

lemma mergeCustomData_resolves:
  "\<exists>e. mergeCustomData ls r = Promise e
     \<and> repo.truncate e = r
     \<and> custom_tags e = getCustomTags ls (Num (repo_id r))
     \<and> notes_text e = getNotes ls (Num (repo_id r))"
  by (simp add: mergeCustomData_def repo.truncate_def repo.extend_def enriched.fields_def)

text \<open>
  C6: the records handed to the filter engine at load time are enriched records, with
  \<open>custom_tags\<close> and \<open>notes\<close> read from the store. The code breaks this: \<open>init\<close> maps
  \<open>mergeCustomData\<close> over the repositories without awaiting it, so every element of the
  list it hands to \<open>initFilters\<close> is a promise, on which \<open>custom_tags\<close> and \<open>notes\<close>
  are \<open>undefined\<close>. For the store \<open>two_repo_store\<close> and the repository with
  identifier 1 the list holds one promise, while the store has the tags \<open>web\<close> and
  \<open>cli\<close> and the note \<open>read this\<close> for it.
\<close>

theorem init_hands_promises_to_filters:
  "map read_custom_tags (repositoriesWithCustomData ls rs) = map (\<lambda>r. None) rs
   \<and> map read_notes (repositoriesWithCustomData ls rs) = map (\<lambda>r. None) rs
   \<and> repositoriesWithCustomData two_repo_store [alpha_repo]
       = [Pending (mergeCustomData two_repo_store alpha_repo)]
   \<and> getCustomTags two_repo_store (Num (repo_id alpha_repo)) = JArr [JStr ''web'', JStr ''cli'']
   \<and> getNotes two_repo_store (Num (repo_id alpha_repo)) = ''read this''"
proof -
  have t: "getCustomTags two_repo_store (Num (repo_id alpha_repo))
             = JArr [JStr ''web'', JStr ''cli'']"
    by code_simp
  have n: "getNotes two_repo_store (Num (repo_id alpha_repo)) = ''read this''"
    by code_simp
  show ?thesis
    by (simp add: t n repositoriesWithCustomData_def read_custom_tags_def read_notes_def)
qed

section \<open>The data loader's fallback\<close>

text \<open>
  C7, as the claim states it: data without a metadata object gives the fallback, and the
  fallback has null metadata. Neither holds. When the network fails the loader returns
  the fallback structure, whose metadata is an object. And data whose metadata is the
  number 5, which is no object, passes the structure check and is returned as it is.
\<close>

theorem fallback_metadata_is_not_null:
  "loadStarsData NetworkFailure = Inr fallback_data
   \<and> member fallback_data ''metadata'' \<noteq> Inr (Some JNull)
   \<and> loadStarsData (Response 200 (Some numeric_metadata)) = Inr numeric_metadata
   \<and> numeric_metadata \<noteq> fallback_data"
  by code_simp

text \<open>
  C7, amended: for every fetch outcome that is unreachable (no response, or a status that
  is not a success), whose body does not parse, or whose data fails the structure check
  (the metadata member is missing or does not count as true, or the repositories are not
  an array), the loader returns, and never throws, the fallback structure: an empty
  repository list and a metadata object with a null \<open>lastUpdated\<close>, the configured user
  name, no stars and version 1.0. (Every other outcome is returned as it is, lemma
  \<open>loadStarsData_usable\<close>.)
\<close>

theorem loadStarsData_fallback:
  assumes "unusable r"
  shows "loadStarsData r = Inr fallback_data
   \<and> member fallback_data ''repositories'' = Inr (Some (JArr []))
   \<and> member fallback_data ''metadata'' =
       Inr (Some (JObj [(''lastUpdated'', JNull), (''username'', JStr USERNAME),
                        (''totalStars'', JNum 0), (''version'', JStr ''1.0'')]))"
proof -
  have shape: "member fallback_data ''repositories'' = Inr (Some (JArr []))
     \<and> member fallback_data ''metadata'' =
       Inr (Some (JObj [(''lastUpdated'', JNull), (''username'', JStr USERNAME),
                        (''totalStars'', JNum 0), (''version'', JStr ''1.0'')]))"
    by (simp add: fallback_data_def)
  have "\<exists>e. loadStarsData_try r = Inl e"
  proof (cases r)
    case NetworkFailure
    then show ?thesis by (simp add: loadStarsData_try_def)
  next
    case (Response status body)
    show ?thesis
    proof (cases "response_ok status")
      case False
      with Response show ?thesis by (simp add: loadStarsData_try_def)
    next
      case True
      show ?thesis
      proof (cases body)
        case None
        with Response True show ?thesis by (simp add: loadStarsData_try_def)
      next
        case (Some data)
        with assms Response True have m: "fails_structure_check data" by (simp add: unusable_def)
        show ?thesis
        proof (cases data)
          case JNull
          with Response True Some show ?thesis by (simp add: loadStarsData_try_def)
        next
          case (JObj kvs)
          with m Response True Some show ?thesis
            by (auto simp: loadStarsData_try_def fails_structure_check_def member_or_undefined_def)
        qed (use m Response True Some in
              \<open>auto simp: loadStarsData_try_def fails_structure_check_def member_or_undefined_def
                 truthy_opt_def\<close>)
      qed
    qed
  qed
  then have "loadStarsData r = Inr fallback_data"
    by (auto simp: loadStarsData_def)
  with shape show ?thesis by simp
qed

theorem loadStarsData_fallback_witness:
  "unusable (Response 200 (Some (JObj [(''repositories'', JArr [])])))
   \<and> loadStarsData (Response 200 (Some (JObj [(''repositories'', JArr [])]))) = Inr fallback_data"
proof -
  have h: "unusable (Response 200 (Some (JObj [(''repositories'', JArr [])])))"
    by code_simp
  from loadStarsData_fallback [OF h] h show ?thesis by simp
qed

text \<open>A usable outcome is returned as it is.\<close>

lemma loadStarsData_usable:
  assumes "\<not> unusable r"
  shows "\<exists>status data. r = Response status (Some data) \<and> loadStarsData r = Inr data"
proof (cases r)
  case NetworkFailure
  with assms show ?thesis by (simp add: unusable_def)
next
  case (Response status body)
  show ?thesis
  proof (cases body)
    case None
    with assms Response show ?thesis by (simp add: unusable_def)
  next
    case (Some data)
    with assms Response show ?thesis
      by (cases data)
         (auto simp: unusable_def loadStarsData_def loadStarsData_try_def fails_structure_check_def
            member_or_undefined_def truthy_opt_def split: option.splits)
  qed
qed

section \<open>Import\<close>




section \<open>All unique tags\<close>

lemma is_string_arrayE:
  assumes "is_string_array it"
  obtains ts where "it = Json (JArr ts)" "\<forall>t\<in>set ts. is_primitive t"
proof -
  from assms obtain ts where it: "it = Json (JArr ts)"
    by (cases it rule: is_string_array.cases) auto
  have "is_primitive t" if "is_JStr t" for t
    using that by (cases t) auto
  with assms it have "\<forall>t\<in>set ts. is_primitive t"
    by (auto simp: list_all_iff)
  with it show ?thesis using that by blast
qed

lemma set_foldl_Set_add: "set (foldl Set_add acc ts) = set acc \<union> set ts"
  by (induction ts arbitrary: acc) (auto simp: Set_add_def)

lemma distinct_foldl_Set_add:
  "distinct acc \<Longrightarrow> \<forall>t\<in>set ts. is_primitive t \<Longrightarrow> distinct (foldl Set_add acc ts)"
  by (induction ts arbitrary: acc) (auto simp: Set_add_def)

lemma getAllUniqueTags_loop_string_store:
  assumes "\<forall>key\<in>set keys. prefix CUSTOM_TAGS_PREFIX key \<longrightarrow>
             (case getItem ls key of None \<Rightarrow> False | Some it \<Rightarrow> is_string_array it)"
    and "distinct acc"
  shows "\<exists>out. getAllUniqueTags_loop ls keys acc = Inr out \<and> distinct out
           \<and> set out = set acc \<union>
               (\<Union>key \<in> set (filter (prefix CUSTOM_TAGS_PREFIX) keys). set (stored_tag_list ls key))"
  using assms
proof (induction keys arbitrary: acc)
  case Nil
  then show ?case by simp
next
  case (Cons key keys)
  show ?case
  proof (cases "prefix CUSTOM_TAGS_PREFIX key")
    case False
    with Cons show ?thesis by simp
  next
    case True
    with Cons.prems obtain it where it: "getItem ls key = Some it" "is_string_array it"
      by (auto split: option.splits)
    then obtain ts where ts: "it = Json (JArr ts)" "\<forall>t\<in>set ts. is_primitive t"
      by (auto elim: is_string_arrayE)
    have d: "distinct (foldl Set_add acc ts)"
      using Cons.prems(2) ts(2) by (rule distinct_foldl_Set_add)
    from Cons.prems(1) have rest: "\<forall>k\<in>set keys. prefix CUSTOM_TAGS_PREFIX k \<longrightarrow>
             (case getItem ls k of None \<Rightarrow> False | Some it \<Rightarrow> is_string_array it)"
      by simp
    from Cons.IH [OF rest d] obtain out where
      out: "getAllUniqueTags_loop ls keys (foldl Set_add acc ts) = Inr out" "distinct out"
        "set out = set (foldl Set_add acc ts) \<union>
           (\<Union>k \<in> set (filter (prefix CUSTOM_TAGS_PREFIX) keys). set (stored_tag_list ls k))"
      by blast
    have step: "getAllUniqueTags_loop ls (key # keys) acc = Inr out"
      using True it ts out(1) by (simp add: JSON_parse_def)
    have "stored_tag_list ls key = ts"
      using it ts by (simp add: stored_tag_list_def)
    with out(3) True have "set out = set acc \<union>
        (\<Union>k \<in> set (filter (prefix CUSTOM_TAGS_PREFIX) (key # keys)). set (stored_tag_list ls k))"
      by (auto simp: set_foldl_Set_add)
    with step out(2) show ?thesis by blast
  qed
qed

text \<open>
  C10, as the claim states it: for every store state the result is free of duplicates.
  The import of the service, run on an empty store, writes what the payload gives as a
  tag list. After \<open>{tags: {1: [['x'], ['x']]}, notes: {}}\<close> the result holds the tag
  \<open>['x']\<close> twice, since a set tells two parsed arrays apart; after
  \<open>{tags: {1: null}, notes: {}}\<close> the function throws, since \<open>null\<close> has no
  \<open>forEach\<close>.
\<close>

theorem getAllUniqueTags_fails_after_import:
  "getAllUniqueTags (snd (importCustomData empty_store nested_tags_payload))
     = Inr [JArr [JStr ''x''], JArr [JStr ''x'']]
   \<and> getAllUniqueTags (snd (importCustomData empty_store null_tags_payload)) = Inl TypeError"
  by code_simp

text \<open>
  C10, amended: for every store whose tag entries are arrays of strings,
  \<open>getAllUniqueTags\<close> returns a list without duplicates, in ascending order, that holds
  exactly the tags of the stored tag lists.
\<close>

theorem getAllUniqueTags_sorted_distinct_exact:
  assumes "string_tag_store ls"
  shows "case getAllUniqueTags ls of
           Inl e \<Rightarrow> False
         | Inr out \<Rightarrow>
             distinct out \<and> sorted (map js_toString out) \<and> set out = all_stored_tags ls"
proof -
  from assms have h: "\<forall>key\<in>set (storage_keys ls). prefix CUSTOM_TAGS_PREFIX key \<longrightarrow>
             (case getItem ls key of None \<Rightarrow> False | Some it \<Rightarrow> is_string_array it)"
    by (simp add: string_tag_store_def list_all_iff)
  from getAllUniqueTags_loop_string_store [OF h, of "[]"] obtain out where
    out: "getAllUniqueTags_loop ls (storage_keys ls) [] = Inr out" "distinct out"
      "set out = all_stored_tags ls"
    by (auto simp: all_stored_tags_def)
  then show ?thesis
    by (simp add: getAllUniqueTags_def)
qed

theorem getAllUniqueTags_sorted_distinct_exact_witness:
  "string_tag_store two_repo_store
   \<and> getAllUniqueTags two_repo_store = Inr [JStr ''api'', JStr ''cli'', JStr ''web'']
   \<and> all_stored_tags two_repo_store = {JStr ''api'', JStr ''cli'', JStr ''web''}"
proof -
  have h: "string_tag_store two_repo_store" by code_simp
  have e: "getAllUniqueTags two_repo_store = Inr [JStr ''api'', JStr ''cli'', JStr ''web'']"
    by code_simp
  from getAllUniqueTags_sorted_distinct_exact [OF h] e
  have "set [JStr ''api'', JStr ''cli'', JStr ''web''] = all_stored_tags two_repo_store"
    by simp
  with h e show ?thesis by auto
qed

section \<open>Custom tags of a card\<close>

lemma nat_digits_not_Nil [simp]: "nat_digits n \<noteq> []"
  by (subst nat_digits.simps) simp

lemma unsigned_text_not_Nil [simp]: "unsigned_text m \<noteq> []"
proof -
  have "exponent_text ds n \<noteq> []" if "ds \<noteq> []" for ds n
    using that by (cases ds) (simp_all add: exponent_text_def)
  then have "double_text x \<noteq> []" for x
    by (simp add: double_text_def)
  then show ?thesis
    by (simp add: unsigned_text_def)
qed

lemma number_to_string_not_Nil [simp]: "number_to_string x \<noteq> []"
  by (cases x) (simp_all add: number_to_string_def)

lemma JSON_stringify_not_Nil [simp]: "JSON_stringify v \<noteq> []"
  by (cases v) (simp_all add: quote_def)

lemma item_text_Json [simp]: "item_text (Json v) \<noteq> []"
  by (simp add: item_text_def)

lemma getCustomTags_setCustomTags:
  "getCustomTags (snd (setCustomTags ls n v)) n =
     (if fst (setCustomTags ls n v) then v else getCustomTags ls n)"
  by (auto simp: setCustomTags_def setItem_def getCustomTags_def getItem_def Let_def
        AList.update_conv' JSON_parse_def)

lemma count_list_distinct: "distinct xs \<Longrightarrow> x \<in> set xs \<Longrightarrow> count_list xs x = 1"
  by (induction xs) auto

lemma tags_ok_duplicate_free: "tags_ok v \<Longrightarrow> duplicate_free v"
proof (cases v)
  case (JArr ts)
  assume "tags_ok v"
  with JArr have d: "distinct ts" and n: "\<forall>t\<in>set ts. normalised_tag t"
    by (auto simp: list_all_iff)
  have "normalise_tag t = t" if "normalised_tag t" for t
    using that by (cases t) (auto simp: normalised_def)
  with n have "map normalise_tag ts = ts"
    by (simp add: map_idI)
  with d JArr show ?thesis by simp
qed auto

text \<open>
  C4: every operation that writes tags, \<open>setCustomTags\<close> and the import included, keeps
  the stored tags of a repository free of duplicates after normalisation. The local
  \<open>setCustomTags\<close> stores the list it is given: written directly or through the import,
  \<open>cool\<close> and \<open>Cool \<close> are both stored for repository 1.
\<close>

theorem setCustomTags_stores_duplicates:
  "duplicate_free (getCustomTags empty_store (Num 1))
   \<and> \<not> duplicate_free
         (getCustomTags
            (snd (setCustomTags empty_store (Num 1) (JArr [JStr ''cool'', JStr ''Cool ''])))
            (Num 1))
   \<and> getCustomTags (snd (importCustomData empty_store duplicate_payload)) (Num 1)
       = JArr [JStr ''cool'', JStr ''Cool '']
   \<and> \<not> duplicate_free (JArr [JStr ''cool'', JStr ''Cool ''])"
  by code_simp

text \<open>
  The tag input of a card does keep its part. For a card whose list is an array of
  normalised strings without duplicates, and a store that holds the same list: when the
  write of the Enter handler succeeds, the store holds the list of the card again, the
  normalised tag is in the stored list exactly once, and entering a text with the same
  normal form a second time changes neither the store nor the card.
\<close>

lemma addTag_twice_stores_once:
  assumes "tags_ok (custom_tags r)"
    and "getCustomTags ls (Num (repo_id r)) = custom_tags r"
    and "trim v \<noteq> []"
    and "toLowerCase (trim w) = toLowerCase (trim v)"
    and "addTag ls r v = Inr (ls', r')"
    and "fst (setCustomTags ls (Num (repo_id r)) (custom_tags r'))"
  shows "getCustomTags ls' (Num (repo_id r')) = custom_tags r'"
    and "tags_ok (getCustomTags ls' (Num (repo_id r')))"
    and "count_list (tag_list (getCustomTags ls' (Num (repo_id r')))) (JStr (toLowerCase (trim v))) = 1"
    and "addTag ls' r' w = Inr (ls', r')"
proof -
  from assms(1) obtain ts where ts: "custom_tags r = JArr ts" "distinct ts"
    "list_all normalised_tag ts"
    by (cases "custom_tags r") auto
  let ?new = "JStr (toLowerCase (trim v))"
  have new_ok: "normalised_tag ?new" by (simp add: normalised_newTag)
  have w: "trim w \<noteq> []"
    using assms(3,4) by (auto simp: toLowerCase_def)
  have all: "getCustomTags ls' (Num (repo_id r')) = custom_tags r'
     \<and> tags_ok (custom_tags r')
     \<and> count_list (tag_list (custom_tags r')) ?new = 1
     \<and> (\<exists>us. custom_tags r' = JArr us \<and> ?new \<in> set us)"
  proof (cases "?new \<in> set ts")
    case True
    with assms(3,5) ts have same: "ls' = ls" "r' = r"
      by (auto simp: addTag_def)
    from True ts(2) have "count_list ts ?new = 1"
      by (simp add: count_list_distinct)
    with same assms(1,2) ts True show ?thesis by simp
  next
    case False
    let ?up = "JArr (ts @ [?new])"
    from False assms(3,5) ts
    have l: "ls' = snd (setCustomTags ls (Num (repo_id r)) ?up)"
      and r: "r' = r\<lparr>custom_tags := ?up\<rparr>"
      by (auto simp: addTag_def Let_def)
    from r assms(6) have ok: "fst (setCustomTags ls (Num (repo_id r)) ?up)" by simp
    have "getCustomTags ls' (Num (repo_id r')) = ?up"
      using l r ok by (simp add: getCustomTags_setCustomTags)
    moreover have "tags_ok ?up"
      using ts False new_ok by simp
    moreover have "count_list (ts @ [?new]) ?new = 1"
      using False by simp
    ultimately show ?thesis using r by simp
  qed
  then show "getCustomTags ls' (Num (repo_id r')) = custom_tags r'"
    and "tags_ok (getCustomTags ls' (Num (repo_id r')))"
    and "count_list (tag_list (getCustomTags ls' (Num (repo_id r')))) ?new = 1"
    by simp_all
  from all obtain us where "custom_tags r' = JArr us" "?new \<in> set us" by blast
  with w assms(4) show "addTag ls' r' w = Inr (ls', r')"
    by (simp add: addTag_def)
qed

text \<open>
  The tag-add and the tag-remove operation of a card keep the card's list and the stored
  list arrays of normalised strings without duplicates, whether the write succeeds or
  not.
\<close>

lemma card_tag_operations_keep_tags_ok:
  assumes "tags_ok (custom_tags r)" and "tags_ok (getCustomTags ls (Num (repo_id r)))"
  shows "(case addTag ls r v of
            Inl e \<Rightarrow> False
          | Inr (ls', r') \<Rightarrow>
              tags_ok (custom_tags r') \<and> tags_ok (getCustomTags ls' (Num (repo_id r)))
              \<and> (trim v \<noteq> [] \<longrightarrow>
                   count_list (tag_list (custom_tags r')) (JStr (toLowerCase (trim v))) = 1))
       \<and> (case removeTag ls r tag of
            Inl e \<Rightarrow> False
          | Inr (ls', r') \<Rightarrow>
              tags_ok (custom_tags r') \<and> tags_ok (getCustomTags ls' (Num (repo_id r)))
              \<and> JStr tag \<notin> set (tag_list (custom_tags r')))"
proof -
  from assms(1) obtain ts where ts: "custom_tags r = JArr ts" "distinct ts"
    "list_all normalised_tag ts"
    by (cases "custom_tags r") auto
  let ?new = "JStr (toLowerCase (trim v))"
  have new_ok: "normalised_tag ?new" by (simp add: normalised_newTag)
  have stored:
    "tags_ok (getCustomTags (snd (setCustomTags ls (Num (repo_id r)) u)) (Num (repo_id r)))"
    if "tags_ok u" for u
    using that assms(2) by (simp add: getCustomTags_setCustomTags)
  have add: "case addTag ls r v of
            Inl e \<Rightarrow> False
          | Inr (ls', r') \<Rightarrow>
              tags_ok (custom_tags r') \<and> tags_ok (getCustomTags ls' (Num (repo_id r)))
              \<and> (trim v \<noteq> [] \<longrightarrow>
                   count_list (tag_list (custom_tags r')) ?new = 1)"
  proof (cases "trim v = []")
    case True
    with assms show ?thesis by (simp add: addTag_def)
  next
    case False
    show ?thesis
    proof (cases "?new \<in> set ts")
      case True
      with ts(2) have "count_list ts ?new = 1"
        by (simp add: count_list_distinct)
      with True False ts assms show ?thesis
        by (simp add: addTag_def)
    next
      case notin: False
      have ok: "tags_ok (JArr (ts @ [?new]))"
        using ts notin new_ok by simp
      have "count_list (ts @ [?new]) ?new = 1"
        using notin by simp
      with False notin ts ok stored [OF ok] show ?thesis
        by (simp add: addTag_def Let_def)
    qed
  qed
  let ?rest = "filter (\<lambda>t. t \<noteq> JStr tag) ts"
  have ok: "tags_ok (JArr ?rest)"
    using ts by (simp add: list_all_iff)
  have "case removeTag ls r tag of
            Inl e \<Rightarrow> False
          | Inr (ls', r') \<Rightarrow>
              tags_ok (custom_tags r') \<and> tags_ok (getCustomTags ls' (Num (repo_id r)))
              \<and> JStr tag \<notin> set (tag_list (custom_tags r'))"
    using ts ok stored [OF ok] by (simp add: removeTag_def Let_def)
  with add show ?thesis by simp
qed

text \<open>The example of the two inputs \<open>cool\<close> and \<open>Cool \<close>, on an empty store.\<close>

lemma addTag_cool_twice:
  "addTag empty_store alpha ''cool'' = Inr (cool_store, cool_alpha)
   \<and> addTag cool_store cool_alpha ''Cool '' = Inr (cool_store, cool_alpha)
   \<and> items cool_store = [(''custom_tags_1'', Json (JArr [JStr ''cool'']))]"
  by code_simp

section \<open>Export and import\<close>

lemma digit_chars:
  "char_of (48::nat) = CHR ''0''" "char_of (49::nat) = CHR ''1''" "char_of (50::nat) = CHR ''2''"
  "char_of (51::nat) = CHR ''3''" "char_of (52::nat) = CHR ''4''" "char_of (53::nat) = CHR ''5''"
  "char_of (54::nat) = CHR ''6''" "char_of (55::nat) = CHR ''7''" "char_of (56::nat) = CHR ''8''"
  "char_of (57::nat) = CHR ''9''"
  by code_simp+

lemma prefixes_exclusive: "prefix CUSTOM_TAGS_PREFIX k \<Longrightarrow> \<not> prefix NOTES_PREFIX k"
  by (auto simp: CUSTOM_TAGS_PREFIX_def NOTES_PREFIX_def prefix_def)





lemma set_own_property_order [simp]: "set (own_property_order kvs) = set kvs"
  by (auto simp: own_property_order_def)









lemma number_to_string_1e21: "number_to_string (Num 1000000000000000000000) = ''1e+21''"
  by (simp add: number_to_string_def unsigned_text_def exact_integer_def double_text_def
        exponent_text_def round_double_def search_digits.simps digit_candidates_def closer_def
        distance_def nat_digits.simps bit_length.simps digit_chars Let_def)




text \<open>
  The service keeps a store in the form that the round trip needs as long as the
  identifiers are plain: \<open>parseInt\<close> reads the text of a plain number back, so the keys
  that \<open>setCustomTags\<close> and \<open>setNotes\<close> build for it are canonical. Starting from an empty
  store, every sequence of \<open>setCustomTags\<close> and \<open>setNotes\<close> with plain identifiers gives
  such a store.
\<close>

lemma dec_char_of: "d < 10 \<Longrightarrow> dec (char_of (48 + d :: nat))"
  by (simp add: dec_def)

lemma digit_val_char_of: "d < 10 \<Longrightarrow> digit_val 10 (char_of (48 + d :: nat)) = Some d"
  by (simp add: digit_val_def Let_def)

lemma dec_digit_val: "dec c \<Longrightarrow> \<exists>y. digit_val 10 c = Some y"
  by (auto simp: dec_def digit_val_def Let_def)

lemma dec_not_space: "dec c \<Longrightarrow> \<not> isWhiteSpace c"
  by (auto simp: dec_def isWhiteSpace_def Let_def)

lemma dec_not_sign: "dec c \<Longrightarrow> c \<noteq> CHR ''-'' \<and> c \<noteq> CHR ''+'' \<and> c \<noteq> CHR ''x'' \<and> c \<noteq> CHR ''X''"
  by (auto simp: dec_def)

lemma nat_digits_dec: "\<forall>c\<in>set (nat_digits n). dec c"
proof (induction n rule: nat_digits.induct)
  case (1 n)
  show ?case
  proof (cases "n < 10")
    case True
    then show ?thesis by (subst nat_digits.simps) (simp add: dec_char_of)
  next
    case False
    with 1 show ?thesis by (subst nat_digits.simps) (simp add: dec_char_of)
  qed
qed

lemma nat_digits_value:
  "foldl (\<lambda>a c. a * 10 + the (digit_val 10 c)) 0 (nat_digits n) = n"
proof (induction n rule: nat_digits.induct)
  case (1 n)
  show ?case
  proof (cases "n < 10")
    case True
    then show ?thesis by (subst nat_digits.simps) (simp add: digit_val_char_of)
  next
    case False
    with 1 show ?thesis by (subst nat_digits.simps) (simp add: digit_val_char_of)
  qed
qed

lemma parseInt_dec:
  assumes "s \<noteq> []" and "\<forall>c\<in>set s. dec c"
  shows "parseInt s = to_number (int (foldl (\<lambda>a c. a * 10 + the (digit_val 10 c)) 0 s))"
    and "parseInt (CHR ''-'' # s)
           = to_number (- int (foldl (\<lambda>a c. a * 10 + the (digit_val 10 c)) 0 s))"
proof -
  from assms obtain c cs where s: "s = c # cs" by (cases s) auto
  with assms have c: "dec c" and cs: "\<forall>x\<in>set cs. dec x" by auto
  have w: "dropWhile isWhiteSpace s = s"
    using s c by (simp add: dec_not_space)
  have nohex: "take 2 s \<noteq> ''0x''" "take 2 s \<noteq> ''0X''"
    using s cs by (cases cs; auto dest: dec_not_sign)+
  have "\<forall>c\<in>set s. digit_val 10 c \<noteq> None"
    using assms(2) dec_digit_val by fastforce
  then have tw: "takeWhile (\<lambda>c. digit_val 10 c \<noteq> None) s = s"
    by (rule takeWhile_eq_all_conv [THEN iffD2])
  have sign: "take 1 s \<noteq> ''-''" "take 1 s \<noteq> ''+''"
    using s c by (auto dest: dec_not_sign)
  show "parseInt s = to_number (int (foldl (\<lambda>a c. a * 10 + the (digit_val 10 c)) 0 s))"
    unfolding parseInt_def Let_def w
    by (simp only: sign nohex tw assms(1) if_False simp_thms)
  have w': "dropWhile isWhiteSpace (CHR ''-'' # s) = CHR ''-'' # s"
    by (simp add: isWhiteSpace_def)
  have t1: "take 1 (CHR ''-'' # s) = ''-''" "drop 1 (CHR ''-'' # s) = s"
    by simp_all
  show "parseInt (CHR ''-'' # s)
          = to_number (- int (foldl (\<lambda>a c. a * 10 + the (digit_val 10 c)) 0 s))"
    unfolding parseInt_def Let_def w' t1
    by (simp only: nohex tw assms(1) if_True if_False simp_thms)
qed

lemma parseInt_number_to_string:
  assumes "plain_number x"
  shows "parseInt (number_to_string x) = x"
proof (cases x)
  case NaN
  show ?thesis unfolding NaN by code_simp
next
  case (Num i)
  with assms have b: "\<bar>i\<bar> \<le> 9007199254740992" by simp
  then have tn: "to_number i = Num i"
    by (simp add: to_number_def exact_integer_def)
  show ?thesis
  proof (cases "i < 0")
    case True
    with b have "unsigned_text (nat (- i)) = nat_digits (nat (- i))"
      by (simp add: unsigned_text_def exact_integer_def)
    with True Num tn show ?thesis
      using parseInt_dec(2) [OF nat_digits_not_Nil nat_digits_dec, of "nat (- i)"]
      by (simp add: number_to_string_def nat_digits_value)
  next
    case False
    with b have "unsigned_text (nat i) = nat_digits (nat i)"
      by (simp add: unsigned_text_def exact_integer_def)
    with False Num tn show ?thesis
      using parseInt_dec(1) [OF nat_digits_not_Nil nat_digits_dec, of "nat i"]
      by (simp add: number_to_string_def nat_digits_value)
  qed
qed (use assms in simp_all)

lemma canonical_number: "plain_number x \<Longrightarrow> canonical_id (number_to_string x)"
  by (simp add: canonical_id_def parseInt_number_to_string)

text \<open>The text of the identifier \<open>10^21\<close> is not canonical: \<open>parseInt\<close> reads it as 1.\<close>

lemma not_canonical_1e21:
  "parseInt (number_to_string (Num 1000000000000000000000)) = Num 1
   \<and> \<not> canonical_id (number_to_string (Num 1000000000000000000000))"
  unfolding canonical_id_def number_to_string_1e21 by code_simp

lemma set_update_subset: "set (AList.update k v al) \<subseteq> insert (k, v) (set al)"
  by (induction al) auto

lemma annotation_store_setItem:
  assumes "annotation_store ls" and "annotation_entry (k, it)" and "setItem ls k it = Inr ls'"
  shows "annotation_store ls'"
proof -
  from assms(3) have i: "items ls' = AList.update k it (items ls)"
    by (auto simp: setItem_def Let_def split: if_splits)
  from assms(1) have "distinct (map fst (AList.update k it (items ls)))"
    by (simp add: annotation_store_def storage_keys_def distinct_update)
  moreover from assms(1,2) set_update_subset [of k it "items ls"]
  have "\<forall>kv\<in>set (AList.update k it (items ls)). annotation_entry kv"
    by (auto simp: annotation_store_def list_all_iff)
  ultimately show ?thesis
    by (simp add: annotation_store_def storage_keys_def list_all_iff i)
qed

lemma annotation_store_setCustomTags:
  assumes "annotation_store ls" and "plain_number repoId"
  shows "annotation_store (snd (setCustomTags ls repoId tags))"
proof (cases "setItem ls (CUSTOM_TAGS_PREFIX @ number_to_string repoId) (Json tags)")
  case (Inl e)
  with assms show ?thesis by (simp add: setCustomTags_def)
next
  case (Inr ls')
  have "annotation_entry (CUSTOM_TAGS_PREFIX @ number_to_string repoId, Json tags)"
    using assms(2) by (simp add: annotation_entry_def canonical_number prefixes_exclusive)
  from annotation_store_setItem [OF assms(1) this Inr] Inr show ?thesis
    by (simp add: setCustomTags_def)
qed

lemma notes_not_tags: "prefix NOTES_PREFIX k \<Longrightarrow> \<not> prefix CUSTOM_TAGS_PREFIX k"
  using prefixes_exclusive by blast

lemma annotation_store_setNotes:
  assumes "annotation_store ls" and "plain_number repoId"
  shows "annotation_store (snd (setNotes ls repoId nts))"
proof (cases nts)
  case (JStr s)
  show ?thesis
  proof (cases "trim s = []")
    case True
    have "set (AList.delete k (items ls)) \<subseteq> set (items ls)" for k
      by (auto simp: AList.delete_eq)
    with assms True JStr show ?thesis
      by (auto simp: setNotes_def removeItem_def annotation_store_def storage_keys_def
            list_all_iff distinct_delete)
  next
    case False
    show ?thesis
    proof (cases "setItem ls (NOTES_PREFIX @ number_to_string repoId) (Text s)")
      case (Inl e)
      with assms JStr False show ?thesis by (simp add: setNotes_def)
    next
      case (Inr ls')
      have "annotation_entry (NOTES_PREFIX @ number_to_string repoId, Text s)"
        using False assms(2)
        by (simp add: annotation_entry_def canonical_number notes_not_tags)
      from annotation_store_setItem [OF assms(1) this Inr] Inr JStr False show ?thesis
        by (simp add: setNotes_def)
    qed
  qed
qed (use assms in \<open>simp_all add: setNotes_def\<close>)

lemma annotation_store_empty: "items ls = [] \<Longrightarrow> annotation_store ls"
  by (simp add: annotation_store_def storage_keys_def)

end
